theory Spec2Isabelle
  imports Main "HOL-Library.Word"
begin

section \<open>Machine types of the x64 build\<close>

text \<open>
  \<open>Address\<close> is \<open>uintptr_t\<close> and \<open>size_t\<close> is the unsigned type of the same width: 64-bit
  words whose \<open>+\<close> and \<open>-\<close> wrap. \<open>int\<close> is a 32-bit word read in two's complement
  (\<open>sint\<close>). \<open>static_cast<int>\<close> of a \<open>size_t\<close> keeps the low 32 bits (\<open>ucast\<close>);
  \<open>static_cast<size_t>\<close> of an \<open>int\<close> extends the sign (\<open>scast\<close>).
\<close>

type_synonym Address = "64 word"
type_synonym size_t = "64 word"
type_synonym cint = "32 word"

definition kNullAddress :: Address where
  "kNullAddress = 0"

text \<open>
  A \<open>DCHECK\<close> that fails is fatal. The model keeps the assertions live: every \<open>DCHECK\<close>
  of the source is a branch that ends in \<open>Inl DCheckFailed\<close>.
\<close>

datatype error = DCheckFailed

section \<open>LinearAllocationArea\<close>

text \<open>
  The members \<open>start_\<close>, \<open>top_\<close> and \<open>limit_\<close>. A name cannot end in an underscore
  here, so the trailing underscore of a member is written as a prime throughout;
  the parameter \<open>end\<close> of \<open>ComputeLimit\<close> is written \<open>end'\<close> for the same reason.
\<close>

record LinearAllocationArea =
  start' :: Address
  top' :: Address
  limit' :: Address

text \<open>
  Modelled from the spec: the class \<open>LinearAllocationArea\<close> is declared in a header that
  is not part of the sources at hand. The spec gives the null area as
  \<open>start = top = limit = 0\<close>, which is what the source builds with
  \<open>LinearAllocationArea(kNullAddress, kNullAddress)\<close> and with
  \<open>Reset(kNullAddress, kNullAddress)\<close>: both take \<open>(top, limit)\<close>, and \<open>start\<close> follows
  \<open>top\<close>.
\<close>

definition LinearAllocationArea_ctor :: "Address \<Rightarrow> Address \<Rightarrow> LinearAllocationArea" where
  "LinearAllocationArea_ctor top0 limit0 = \<lparr>start' = top0, top' = top0, limit' = limit0\<rparr>"

definition Reset :: "Address \<Rightarrow> Address \<Rightarrow> LinearAllocationArea \<Rightarrow> LinearAllocationArea" where
  "Reset top0 limit0 a = a\<lparr>start' := top0, top' := top0, limit' := limit0\<rparr>"

section \<open>SpaceWithLinearArea::ComputeLimit\<close>

text \<open>
  What \<open>ComputeLimit\<close> reads of the space, its heap, its allocator and the flags. The
  getters themselves are declared in headers outside \<open>spaces.cc\<close>; each is a field that
  holds what the call returns:
  \<^item> \<open>IsInGC\<close>, \<open>IsInlineAllocationEnabled\<close>, \<open>IsAllocationObserverActive\<close>: the three
    queries on \<open>heap()\<close>;
  \<^item> \<open>SupportsAllocationObserver\<close>: the query on the space itself;
  \<^item> \<open>allocation_info\<close>: \<open>allocator_.allocation_info()\<close>;
  \<^item> \<open>NextBytes\<close>: \<open>allocator_.allocation_counter().NextBytes()\<close>;
  \<^item> \<open>stress_marking\<close>: \<open>v8_flags.stress_marking\<close>;
  \<^item> \<open>kObjectAlignment\<close>: the object alignment of the space, in bytes.
\<close>

record SpaceWithLinearArea =
  IsInGC :: bool
  IsInlineAllocationEnabled :: bool
  IsAllocationObserverActive :: bool
  SupportsAllocationObserver :: bool
  allocation_info :: LinearAllocationArea
  NextBytes :: size_t
  stress_marking :: bool
  kObjectAlignment :: nat

text \<open>
  Modelled from the spec: \<open>RoundSizeDownToObjectAlignment\<close> is declared in
  \<open>src/heap/spaces.h\<close>, which is not part of the sources at hand. The spec calls it
  \<open>round_down_to_object_alignment\<close>: the greatest multiple of the object alignment that
  does not exceed its argument. The call site fixes the types: an \<open>int\<close> goes in and the
  result is cast from a signed type.
\<close>

definition RoundSizeDownToObjectAlignment :: "nat \<Rightarrow> cint \<Rightarrow> cint" where
  "RoundSizeDownToObjectAlignment a size' = word_of_int ((sint size' div int a) * int a)"

text \<open>Lines 74-75: the step of the observer, minus one, narrowed, rounded and widened.\<close>

definition rounded_step :: "SpaceWithLinearArea \<Rightarrow> size_t \<Rightarrow> size_t" where
  "rounded_step s step =
     scast (RoundSizeDownToObjectAlignment (kObjectAlignment s) (ucast (step - 1)))"

text \<open>Lines 79-84: the stress clamp, the last assertion and the returned address.\<close>

definition ComputeLimit_finish ::
  "Address \<Rightarrow> Address \<Rightarrow> size_t \<Rightarrow> size_t \<Rightarrow> SpaceWithLinearArea
     \<Rightarrow> (error + Address) \<times> SpaceWithLinearArea" where
  "ComputeLimit_finish start end' min_size step_size0 s =
     (let step_size = (if stress_marking s then min step_size0 64 else step_size0)
      in if \<not> start + step_size \<le> end' then (Inl DCheckFailed, s)
         else (Inr (start + max step_size min_size), s))"

text \<open>
  The method is \<open>const\<close>; it is written in state-passing style all the same, returning
  the space next to the result, so that what it leaves unchanged is a theorem about it.
\<close>

definition ComputeLimit ::
  "Address \<Rightarrow> Address \<Rightarrow> size_t \<Rightarrow> SpaceWithLinearArea
     \<Rightarrow> (error + Address) \<times> SpaceWithLinearArea" where
  "ComputeLimit start end' min_size s =
     (if \<not> min_size \<le> end' - start then (Inl DCheckFailed, s)
      else if IsInGC s then (Inr end', s)
      else if \<not> IsInlineAllocationEnabled s then (Inr (start + min_size), s)
      else if SupportsAllocationObserver s \<and> IsAllocationObserverActive s then
        (if start' (allocation_info s) \<noteq> top' (allocation_info s) then (Inl DCheckFailed, s)
         else if NextBytes s = 0 then (Inl DCheckFailed, s)
         else ComputeLimit_finish start end' min_size
                (min (end' - start) (rounded_step s (NextBytes s))) s)
      else ComputeLimit_finish start end' min_size (end' - start) s)"

text \<open>
  The spec's wording of the observer branch, on unbounded numbers: round \<open>k - 1\<close> down to
  the object alignment, take the larger of that and \<open>min_size\<close>, add it to \<open>start\<close> and
  clamp the sum to \<open>end\<close>.
\<close>

definition round_down_to_object_alignment :: "nat \<Rightarrow> nat \<Rightarrow> nat" where
  "round_down_to_object_alignment a n = (n div a) * a"

definition observer_limit_spec :: "nat \<Rightarrow> nat \<Rightarrow> nat \<Rightarrow> nat \<Rightarrow> nat \<Rightarrow> nat" where
  "observer_limit_spec a start end' min_size k =
     min end' (start + max min_size (round_down_to_object_alignment a (k - 1)))"

text \<open>Two spaces to evaluate on: one without an active observer, one with a far sample.\<close>

definition example_space :: SpaceWithLinearArea where
  "example_space =
     \<lparr>IsInGC = False, IsInlineAllocationEnabled = True, IsAllocationObserverActive = False,
      SupportsAllocationObserver = True,
      allocation_info = \<lparr>start' = 0x1000, top' = 0x1000, limit' = 0x1000\<rparr>,
      NextBytes = 0x100, stress_marking = False, kObjectAlignment = 8\<rparr>"

definition large_step_space :: SpaceWithLinearArea where
  "large_step_space =
     \<lparr>IsInGC = False, IsInlineAllocationEnabled = True, IsAllocationObserverActive = True,
      SupportsAllocationObserver = True,
      allocation_info = \<lparr>start' = 0x1000, top' = 0x1000, limit' = 0x1000\<rparr>,
      NextBytes = 0x100000009, stress_marking = False, kObjectAlignment = 8\<rparr>"

section \<open>LocalAllocationBuffer\<close>

text \<open>
  A buffer holds \<open>heap_\<close>, a \<open>Heap*\<close> kept as the address of the heap, and
  \<open>allocation_info_\<close>. Buffers are objects: the move operations take two of them by
  reference, and what they do depends on whether the two are the same object. So the
  buffers live in a store, addressed by number, and every method takes \<open>this\<close>.

  The store also keeps the log of the filler objects written so far. Modelled from the
  spec: \<open>Heap::CreateFillerObjectAtBackground(address, size)\<close> is defined outside
  \<open>spaces.cc\<close>; by the spec it writes a filler object over \<open>[address, address + size)\<close>
  and succeeds unconditionally. The log records the heap, the address and the \<open>int\<close>
  size of each call, in order.
\<close>

record LocalAllocationBuffer =
  heap' :: nat
  allocation_info' :: LinearAllocationArea

record Store =
  labs :: "nat \<Rightarrow> LocalAllocationBuffer"
  fillers :: "(nat \<times> Address \<times> cint) list"

definition CreateFillerObjectAtBackground :: "nat \<Rightarrow> Address \<Rightarrow> cint \<Rightarrow> Store \<Rightarrow> Store" where
  "CreateFillerObjectAtBackground h addr size' w = w\<lparr>fillers := fillers w @ [(h, addr, size')]\<rparr>"

text \<open>
  Modelled from the spec: \<open>IsValid\<close> is declared with the class, outside \<open>spaces.cc\<close>.
  The spec: true iff the owned area is non-null.
\<close>

definition IsValid :: "LocalAllocationBuffer \<Rightarrow> bool" where
  "IsValid lab \<longleftrightarrow> allocation_info' lab \<noteq> LinearAllocationArea_ctor kNullAddress kNullAddress"

text \<open>An assignment to a member of the buffer at \<open>this\<close>.\<close>

definition assign :: "nat \<Rightarrow> (LocalAllocationBuffer \<Rightarrow> LocalAllocationBuffer) \<Rightarrow> Store \<Rightarrow> Store" where
  "assign this f w = w\<lparr>labs := (labs w)(this := f (labs w this))\<rparr>"

definition MakeIterable :: "nat \<Rightarrow> Store \<Rightarrow> Store" where
  "MakeIterable this w =
     (if IsValid (labs w this) then
        CreateFillerObjectAtBackground (heap' (labs w this))
          (top' (allocation_info' (labs w this)))
          (ucast (limit' (allocation_info' (labs w this)) - top' (allocation_info' (labs w this))))
          w
      else w)"

definition CloseAndMakeIterable :: "nat \<Rightarrow> Store \<Rightarrow> LinearAllocationArea \<times> Store" where
  "CloseAndMakeIterable this w =
     (if IsValid (labs w this) then
        (let w1 = MakeIterable this w;
             old_info = allocation_info' (labs w1 this);
             w2 = assign this
                    (\<lambda>l. l\<lparr>allocation_info' := LinearAllocationArea_ctor kNullAddress kNullAddress\<rparr>)
                    w1
         in (old_info, w2))
      else (LinearAllocationArea_ctor kNullAddress kNullAddress, w))"

text \<open>Lines 105-108: the constructor from a heap and an area, building the object at \<open>this\<close>.\<close>

definition LocalAllocationBuffer_ctor :: "nat \<Rightarrow> nat \<Rightarrow> LinearAllocationArea \<Rightarrow> Store \<Rightarrow> Store" where
  "LocalAllocationBuffer_ctor this heap allocation_info0 w =
     assign this (\<lambda>_. \<lparr>heap' = heap, allocation_info' = allocation_info0\<rparr>) w"

text \<open>
  Lines 115-122: \<open>operator=(LocalAllocationBuffer&& other)\<close>, one assignment after the
  other, each reading the store the one before it left.
\<close>

definition move_assign :: "nat \<Rightarrow> nat \<Rightarrow> Store \<Rightarrow> Store" where
  "move_assign this other w =
     (let w1 = assign this (\<lambda>l. l\<lparr>heap' := heap' (labs w other)\<rparr>) w;
          w2 = assign this (\<lambda>l. l\<lparr>allocation_info' := allocation_info' (labs w1 other)\<rparr>) w1;
          w3 = assign other
                 (\<lambda>l. l\<lparr>allocation_info' := Reset kNullAddress kNullAddress (allocation_info' l)\<rparr>)
                 w2
      in w3)"

text \<open>Lines 110-113: the move constructor is the move assignment into the new object.\<close>

definition move_construct :: "nat \<Rightarrow> nat \<Rightarrow> Store \<Rightarrow> Store" where
  "move_construct this other w = move_assign this other w"

text \<open>
  By the spec a filler call covers \<open>[address, address + size)\<close>: the address one past
  the filler, on unbounded integers, with the size read as the \<open>int\<close> it is.
\<close>

definition filler_end :: "nat \<times> Address \<times> cint \<Rightarrow> int" where
  "filler_end f = (case f of (h, addr, size') \<Rightarrow> uint addr + sint size')"

text \<open>
  Two stores to evaluate on. In both, the object at address 1 is a valid buffer of heap 7
  and every other object is an invalid buffer; the second buffer has more than 4 GiB left.
\<close>

definition example_store :: Store where
  "example_store =
     \<lparr>labs = (\<lambda>_. \<lparr>heap' = 0,
                     allocation_info' = LinearAllocationArea_ctor kNullAddress kNullAddress\<rparr>)
               (1 := \<lparr>heap' = 7,
                      allocation_info' = \<lparr>start' = 0x1000, top' = 0x1040, limit' = 0x2000\<rparr>\<rparr>),
      fillers = []\<rparr>"

definition huge_store :: Store where
  "huge_store =
     \<lparr>labs = (\<lambda>_. \<lparr>heap' = 0,
                     allocation_info' = LinearAllocationArea_ctor kNullAddress kNullAddress\<rparr>)
               (1 := \<lparr>heap' = 7,
                      allocation_info' =
                        \<lparr>start' = 0x1000, top' = 0x1000, limit' = 0x100001010\<rparr>\<rparr>),
      fillers = []\<rparr>"

section \<open>SpaceIterator\<close>

text \<open>
  The iterator keeps \<open>heap_\<close> and the cursor \<open>current_space_\<close>, an \<open>int\<close>. All it asks
  of the heap is \<open>heap_->space(i)\<close>, the \<open>Space*\<close> of slot \<open>i\<close>: the functions below take
  that accessor as \<open>space\<close>, with \<open>None\<close> for a null pointer. The enumerators
  \<open>FIRST_MUTABLE_SPACE\<close> and \<open>LAST_MUTABLE_SPACE\<close> are declared in
  \<open>src/common/globals.h\<close>, outside the sources at hand, and are parameters. The cursor is
  an unbounded integer: it never passes \<open>LAST_MUTABLE_SPACE + 1\<close>, a small enumerator.
\<close>

record SpaceIterator =
  current_space' :: int

definition SpaceIterator_ctor :: "int \<Rightarrow> SpaceIterator" where
  "SpaceIterator_ctor FIRST_MUTABLE_SPACE = \<lparr>current_space' = FIRST_MUTABLE_SPACE\<rparr>"

function HasNext :: "int \<Rightarrow> (int \<Rightarrow> 'sp option) \<Rightarrow> SpaceIterator \<Rightarrow> bool \<times> SpaceIterator" where
  "HasNext LAST_MUTABLE_SPACE space it =
     (if current_space' it \<le> LAST_MUTABLE_SPACE then
        (case space (current_space' it) of
           Some s \<Rightarrow> (True, it)
         | None \<Rightarrow>
             HasNext LAST_MUTABLE_SPACE space (it\<lparr>current_space' := current_space' it + 1\<rparr>))
      else (False, it))"
  by pat_completeness auto
termination
  by (relation "measure (\<lambda>(l, sp, it). nat (l + 1 - current_space' it))") auto

declare HasNext.simps [simp del]

definition Next ::
  "int \<Rightarrow> (int \<Rightarrow> 'sp option) \<Rightarrow> SpaceIterator \<Rightarrow> error + ('sp \<times> SpaceIterator)" where
  "Next LAST_MUTABLE_SPACE space it =
     (if \<not> current_space' it \<le> LAST_MUTABLE_SPACE then Inl DCheckFailed
      else case space (current_space' it) of
             None \<Rightarrow> Inl DCheckFailed
           | Some s \<Rightarrow> Inr (s, it\<lparr>current_space' := current_space' it + 1\<rparr>))"

text \<open>
  The protocol of the callers, \<open>while (it.HasNext()) { Space* space = it.Next(); ... }\<close>,
  collecting what \<open>Next\<close> returns. It ends because \<open>HasNext\<close> never moves the cursor back
  and \<open>Next\<close> moves it forward, below \<open>LAST_MUTABLE_SPACE + 1\<close>.
\<close>

function iterate_spaces ::
  "int \<Rightarrow> (int \<Rightarrow> 'sp option) \<Rightarrow> SpaceIterator \<Rightarrow> error + ('sp list \<times> SpaceIterator)" where
  "iterate_spaces LAST_MUTABLE_SPACE space it =
     (case HasNext LAST_MUTABLE_SPACE space it of
        (False, it1) \<Rightarrow> Inr ([], it1)
      | (True, it1) \<Rightarrow>
          (case Next LAST_MUTABLE_SPACE space it1 of
             Inl e \<Rightarrow> Inl e
           | Inr (s, it2) \<Rightarrow>
               (case iterate_spaces LAST_MUTABLE_SPACE space it2 of
                  Inl e \<Rightarrow> Inl e
                | Inr (ss, it3) \<Rightarrow> Inr (s # ss, it3))))"
  by pat_completeness auto
termination
proof (relation "measure (\<lambda>(l, sp, it). nat (l + 1 - current_space' it))")
  show "wf (measure (\<lambda>(l, sp :: int \<Rightarrow> 'sp option, it). nat (l + 1 - current_space' it)))"
    by simp
next
  fix l :: int and sp :: "int \<Rightarrow> 'sp option" and it x1 it1 x y it2
  assume h: "(x1, it1) = HasNext l sp it" "x1 = True" "Next l sp it1 = Inr x" "(y, it2) = x"
  have mono: "current_space' it \<le> current_space' (snd (HasNext l sp it))"
  proof (induction l sp it rule: HasNext.induct)
    case (1 l sp it)
    show ?case
    proof (cases "current_space' it \<le> l \<and> sp (current_space' it) = None")
      case True
      then have "HasNext l sp it = HasNext l sp (it\<lparr>current_space' := current_space' it + 1\<rparr>)"
        by (subst HasNext.simps) simp
      then show ?thesis using 1 True by simp
    next
      case False
      then have "snd (HasNext l sp it) = it"
        by (subst HasNext.simps) (auto split: option.splits)
      then show ?thesis by simp
    qed
  qed
  have c1: "current_space' it \<le> current_space' it1"
    using mono h(1) by (metis snd_conv)
  have c2: "current_space' it1 \<le> l \<and> current_space' it2 = current_space' it1 + 1"
    using h(3,4) by (auto simp: Next_def split: if_splits option.splits)
  show "((l, sp, it2), (l, sp, it)) \<in> measure (\<lambda>(l, sp, it). nat (l + 1 - current_space' it))"
    using c1 c2 by simp
qed

declare iterate_spaces.simps [simp del]

text \<open>A heap with spaces in the slots 2, 5 and 7, each named for the evaluation.\<close>

definition example_heap :: "int \<Rightarrow> string option" where
  "example_heap i =
     (if i = 2 then Some ''old_space'' else if i = 5 then Some ''lo_space''
      else if i = 7 then Some ''code_lo_space'' else None)"

section \<open>Address arithmetic inside a region\<close>

text \<open>An offset that fits between \<open>start\<close> and \<open>end\<close> is added without wrapping.\<close>

lemma fits_word:
  fixes start :: Address
  assumes "start \<le> end'" and "x \<le> end' - start"
  shows "unat (start + x) = unat start + unat x" and "start + x \<le> end'"
proof -
  have a: "unat start \<le> unat end'"
    using assms(1) by (simp add: word_le_nat_alt)
  have b: "unat (end' - start) = unat end' - unat start"
    using assms(1) by (simp add: unat_sub)
  have c: "unat x \<le> unat end' - unat start"
    using assms(2) b by (simp add: word_le_nat_alt)
  have d: "unat end' < 2 ^ 64"
    using unsigned_less[of end'] by simp
  have "unat start + unat x < 2 ^ 64"
    using a c d by linarith
  then show e: "unat (start + x) = unat start + unat x"
    by (simp add: unat_add_lem[THEN iffD1])
  show "start + x \<le> end'"
    using e a c by (simp add: word_le_nat_alt)
qed

text \<open>
  With a step that fits the region, the last assertion of \<open>ComputeLimit\<close> holds and the
  returned address lies between \<open>start + min_size\<close> and \<open>end\<close>.
\<close>

lemma finish_bounds:
  fixes start :: Address
  assumes "start \<le> end'" and "min_size \<le> end' - start" and "step \<le> end' - start"
  shows "\<exists>r. ComputeLimit_finish start end' min_size step s = (Inr r, s) \<and>
           unat start + unat min_size \<le> unat r \<and> r \<le> end' \<and>
           r = start + max (if stress_marking s then min step 64 else step) min_size"
proof -
  define st where "st = (if stress_marking s then min step 64 else step)"
  have st: "st \<le> end' - start"
    using assms(3) by (auto simp: st_def min_def)
  have m: "max st min_size \<le> end' - start"
    using st assms(2) by (simp add: max_def)
  note f1 = fits_word[OF assms(1) st]
  note f2 = fits_word[OF assms(1) m]
  have "unat min_size \<le> unat (max st min_size)"
    by (simp add: word_le_nat_alt[symmetric])
  then show ?thesis
    using f1 f2 unfolding ComputeLimit_finish_def st_def[symmetric] Let_def by simp
qed

text \<open>
  A step of at most \<open>2 ^ 31\<close> bytes survives the two casts: the rounded step of the code
  is the rounded step of the spec.
\<close>

lemma rounded_step_small:
  assumes k: "k \<noteq> 0" "unat k \<le> 2 ^ 31"
  shows "unat (rounded_step s k) =
           round_down_to_object_alignment (kObjectAlignment s) (unat k - 1)"
proof -
  define a where "a = kObjectAlignment s"
  define n where "n = unat k - 1"
  have k1: "unat k \<ge> 1"
    using k(1) by (simp add: unat_gt_0 Suc_le_eq)
  have n: "unat (k - 1) = n"
    using k1 by (simp add: n_def unat_sub word_le_nat_alt)
  have nlt: "n < 2 ^ 31"
    using k(2) k1 by (simp add: n_def)
  have ui: "uint (k - 1) = int n"
    using n by (metis uint_nat)
  have si: "sint (ucast (k - 1) :: cint) = int n"
    using nlt by (simp add: signed_ucast_eq ui signed_take_bit_int_eq_self)
  define r where "r = (n div a) * a"
  have rle: "r \<le> n"
    by (simp add: r_def)
  have rlt: "int r < 2 ^ 31"
    using rle nlt by simp
  have rr: "(int n div int a) * int a = int r"
    by (simp add: r_def zdiv_int)
  have rs: "RoundSizeDownToObjectAlignment a (ucast (k - 1)) = word_of_nat r"
    by (simp add: RoundSizeDownToObjectAlignment_def si rr)
  have sr: "sint (word_of_nat r :: cint) = int r"
    using rlt by (simp add: signed_of_nat signed_take_bit_int_eq_self)
  have "rounded_step s k = word_of_nat r"
    unfolding rounded_step_def a_def[symmetric] rs by (simp add: scast_eq sr)
  moreover have "unat (word_of_nat r :: size_t) = r"
    using rlt by (simp add: unat_of_nat)
  ultimately show ?thesis
    by (simp add: r_def round_down_to_object_alignment_def a_def n_def)
qed

section \<open>Properties of ComputeLimit\<close>

text \<open>
  C1. For every region with \<open>start \<le> end\<close> and every \<open>min_size \<le> end - start\<close>,
  \<open>ComputeLimit\<close> returns an address \<open>r\<close> with \<open>start + min_size \<le> r \<le> end\<close>, whatever
  the garbage-collection, inline-allocation, observer and stress settings are. The sum
  \<open>start + min_size\<close> is taken on unbounded numbers, so it does not wrap. The one way
  not to return is a failed assertion of the observer branch: unaccounted allocations
  (\<open>start \<noteq> top\<close> in the tracked area) or \<open>NextBytes() = 0\<close> while an observer is active.
\<close>

theorem ComputeLimit_bounds:
  assumes "start \<le> end'" and "min_size \<le> end' - start"
  shows "case fst (ComputeLimit start end' min_size s) of
           Inr r \<Rightarrow> unat start + unat min_size \<le> unat r \<and> r \<le> end'
         | Inl e \<Rightarrow> \<not> IsInGC s \<and> IsInlineAllocationEnabled s \<and>
             SupportsAllocationObserver s \<and> IsAllocationObserverActive s \<and>
             (start' (allocation_info s) \<noteq> top' (allocation_info s) \<or> NextBytes s = 0)"
proof -
  note fw = fits_word[OF assms]
  have full: "\<exists>r. ComputeLimit_finish start end' min_size (end' - start) s = (Inr r, s) \<and>
      unat start + unat min_size \<le> unat r \<and> r \<le> end'"
    using finish_bounds[OF assms, of "end' - start" s] by blast
  have obs: "\<exists>r. ComputeLimit_finish start end' min_size
        (min (end' - start) (rounded_step s (NextBytes s))) s = (Inr r, s) \<and>
      unat start + unat min_size \<le> unat r \<and> r \<le> end'"
    using finish_bounds[OF assms, of "min (end' - start) (rounded_step s (NextBytes s))" s]
    by auto
  show ?thesis
    using assms fw full obs unfolding ComputeLimit_def
    by (auto simp: word_le_nat_alt)
qed

theorem ComputeLimit_bounds_witness:
  "(0x1000 :: Address) \<le> 0x2000 \<and> (0x10 :: size_t) \<le> 0x2000 - 0x1000 \<and>
   fst (ComputeLimit 0x1000 0x2000 0x10 (example_space\<lparr>IsAllocationObserverActive := True\<rparr>)) =
     Inr 0x10F8 \<and>
   unat (0x1000 :: Address) + unat (0x10 :: size_t) \<le> unat (0x10F8 :: Address) \<and>
   (0x10F8 :: Address) \<le> 0x2000"
  using ComputeLimit_bounds[of "0x1000" "0x2000" "0x10"
      "example_space\<lparr>IsAllocationObserverActive := True\<rparr>"]
  by (simp add: ComputeLimit_def ComputeLimit_finish_def example_space_def rounded_step_def
      RoundSizeDownToObjectAlignment_def)

text \<open>
  C2, as amended. Outside a garbage collection, with inline allocation enabled, the
  stress flag off and an observer active (the space supports observers and the heap has
  one active), with no unaccounted allocation and \<open>NextBytes() = k\<close> for a \<open>k\<close> from 1 to
  \<open>2 ^ 31\<close>, so that \<open>k - 1\<close> fits the \<open>int\<close> it is narrowed to:
  \<open>ComputeLimit\<close> returns \<open>start + max(min_size, round_down(k - 1))\<close> clamped to \<open>end\<close>,
  the sum and the clamp taken on unbounded numbers.
\<close>

theorem ComputeLimit_observer:
  assumes "start \<le> end'" and "min_size \<le> end' - start"
    and "\<not> IsInGC s" and "IsInlineAllocationEnabled s" and "\<not> stress_marking s"
    and "SupportsAllocationObserver s" and "IsAllocationObserverActive s"
    and "start' (allocation_info s) = top' (allocation_info s)"
    and "NextBytes s = k" and "k \<noteq> 0" and "unat k \<le> 2 ^ 31"
  shows "\<exists>r. fst (ComputeLimit start end' min_size s) = Inr r \<and>
           unat r = observer_limit_spec (kObjectAlignment s) (unat start) (unat end')
                      (unat min_size) (unat k)"
proof -
  define R where "R = rounded_step s k"
  have R: "unat R = round_down_to_object_alignment (kObjectAlignment s) (unat k - 1)"
    unfolding R_def by (rule rounded_step_small) fact+
  define st where "st = min (end' - start) R"
  have st: "st \<le> end' - start"
    by (simp add: st_def)
  obtain r where r: "ComputeLimit_finish start end' min_size st s = (Inr r, s)"
      "r = start + max st min_size"
    using finish_bounds[OF assms(1,2) st, of s] assms(5) by auto
  have le: "max st min_size \<le> end' - start"
    using st assms(2) by (simp add: max_def)
  have ur: "unat r = unat start + unat (max st min_size)"
    using fits_word(1)[OF assms(1) le] r(2) by simp
  have d: "unat (end' - start) = unat end' - unat start"
    using assms(1) by (simp add: unat_sub)
  have se: "unat start \<le> unat end'"
    using assms(1) by (simp add: word_le_nat_alt)
  have m: "unat min_size \<le> unat end' - unat start"
    using assms(2) d by (simp add: word_le_nat_alt)
  have "unat (max st min_size) = max (min (unat end' - unat start) (unat R)) (unat min_size)"
    by (auto simp: st_def max_def min_def word_le_nat_alt d)
  then have "unat r = observer_limit_spec (kObjectAlignment s) (unat start) (unat end')
                      (unat min_size) (unat k)"
    using ur se m unfolding observer_limit_spec_def R[symmetric]
    by (auto simp: max_def min_def)
  moreover have "fst (ComputeLimit start end' min_size s) = Inr r"
    using assms r(1) by (simp add: ComputeLimit_def st_def R_def)
  ultimately show ?thesis by blast
qed

theorem ComputeLimit_observer_witness:
  "(0x1000 :: Address) \<le> 0x2000 \<and> (0x10 :: size_t) \<le> 0x2000 - 0x1000 \<and>
   NextBytes (example_space\<lparr>IsAllocationObserverActive := True\<rparr>) = 0x100 \<and>
   unat (0x100 :: size_t) \<le> 2 ^ 31 \<and>
   fst (ComputeLimit 0x1000 0x2000 0x10 (example_space\<lparr>IsAllocationObserverActive := True\<rparr>)) =
     Inr 0x10F8 \<and>
   observer_limit_spec 8 0x1000 0x2000 0x10 0x100 = 0x10F8"
  using ComputeLimit_observer[of "0x1000" "0x2000" "0x10"
      "example_space\<lparr>IsAllocationObserverActive := True\<rparr>" "0x100"]
  by (simp add: ComputeLimit_def ComputeLimit_finish_def example_space_def rounded_step_def
      RoundSizeDownToObjectAlignment_def observer_limit_spec_def
      round_down_to_object_alignment_def)

text \<open>
  The statement of C2 without the bound on \<open>k\<close> fails: with \<open>NextBytes() = 2 ^ 32 + 9\<close>
  the narrowing to \<open>int\<close> leaves 8, and the limit is \<open>start + 16\<close>, while the spec's
  formula gives \<open>end\<close>.
\<close>

theorem ComputeLimit_observer_counterexample:
  "fst (ComputeLimit 0x1000 0x2000 0x10 large_step_space) = Inr 0x1010 \<and>
   NextBytes large_step_space = 0x100000009 \<and>
   observer_limit_spec (kObjectAlignment large_step_space) 0x1000 0x2000 0x10 0x100000009 =
     0x2000"
  by (simp add: ComputeLimit_def ComputeLimit_finish_def large_step_space_def rounded_step_def
      RoundSizeDownToObjectAlignment_def observer_limit_spec_def
      round_down_to_object_alignment_def)

text \<open>
  C3. While the heap is in a garbage collection, \<open>ComputeLimit\<close> returns \<open>end\<close> for every
  request with \<open>min_size \<le> end - start\<close>, whatever the inline-allocation, observer and
  stress settings are.
\<close>

theorem ComputeLimit_in_gc:
  "min_size \<le> end' - start \<Longrightarrow> IsInGC s \<Longrightarrow>
   fst (ComputeLimit start end' min_size s) = Inr end'"
  by (simp add: ComputeLimit_def)

theorem ComputeLimit_in_gc_witness:
  "(0x10 :: size_t) \<le> 0x2000 - 0x1000 \<and>
   IsInGC (example_space\<lparr>IsInGC := True, stress_marking := True\<rparr>) \<and>
   fst (ComputeLimit 0x1000 0x2000 0x10 (example_space\<lparr>IsInGC := True, stress_marking := True\<rparr>)) =
     Inr 0x2000"
proof -
  have h1: "(0x10 :: size_t) \<le> 0x2000 - 0x1000"
    by simp
  have h2: "IsInGC (example_space\<lparr>IsInGC := True, stress_marking := True\<rparr>)"
    by simp
  show ?thesis
    using ComputeLimit_in_gc[OF h1 h2] h1 h2 by simp
qed

text \<open>
  C4. Outside a garbage collection, with inline allocation disabled, \<open>ComputeLimit\<close>
  returns exactly \<open>start + min_size\<close> for every request with \<open>min_size \<le> end - start\<close>,
  whatever the observer and stress settings are.
\<close>

theorem ComputeLimit_inline_disabled:
  "min_size \<le> end' - start \<Longrightarrow> \<not> IsInGC s \<Longrightarrow> \<not> IsInlineAllocationEnabled s \<Longrightarrow>
   fst (ComputeLimit start end' min_size s) = Inr (start + min_size)"
  by (simp add: ComputeLimit_def)

theorem ComputeLimit_inline_disabled_witness:
  "(0x10 :: size_t) \<le> 0x2000 - 0x1000 \<and>
   \<not> IsInGC (example_space\<lparr>IsInlineAllocationEnabled := False\<rparr>) \<and>
   \<not> IsInlineAllocationEnabled (example_space\<lparr>IsInlineAllocationEnabled := False\<rparr>) \<and>
   fst (ComputeLimit 0x1000 0x2000 0x10 (example_space\<lparr>IsInlineAllocationEnabled := False\<rparr>)) =
     Inr 0x1010"
proof -
  have h1: "(0x10 :: size_t) \<le> 0x2000 - 0x1000"
    by simp
  have h2: "\<not> IsInGC (example_space\<lparr>IsInlineAllocationEnabled := False\<rparr>)"
    by (simp add: example_space_def)
  have h3: "\<not> IsInlineAllocationEnabled (example_space\<lparr>IsInlineAllocationEnabled := False\<rparr>)"
    by simp
  show ?thesis
    using ComputeLimit_inline_disabled[OF h1 h2 h3] h1 h2 h3 by simp
qed

text \<open>
  C5. With the stress flag set, outside a garbage collection and with inline allocation
  enabled, every request with \<open>start \<le> end\<close> and \<open>min_size \<le> end - start\<close> gets a limit
  of at most \<open>start + max(64, min_size)\<close>, the sum taken on unbounded numbers; the one
  way not to return is a failed assertion of the observer branch. In particular, with
  no active observer, \<open>start = 0x1000\<close>, \<open>end = 0x2000\<close> and \<open>min_size = 0x10\<close> give
  \<open>0x1040\<close>.
\<close>

theorem ComputeLimit_stress:
  assumes "start \<le> end'" and "min_size \<le> end' - start"
    and "stress_marking s" and "\<not> IsInGC s" and "IsInlineAllocationEnabled s"
  shows "(case fst (ComputeLimit start end' min_size s) of
            Inr r \<Rightarrow> unat r \<le> unat start + max 64 (unat min_size)
          | Inl e \<Rightarrow> SupportsAllocationObserver s \<and> IsAllocationObserverActive s \<and>
              (start' (allocation_info s) \<noteq> top' (allocation_info s) \<or> NextBytes s = 0)) \<and>
         (\<not> (SupportsAllocationObserver s \<and> IsAllocationObserverActive s) \<longrightarrow>
            fst (ComputeLimit 0x1000 0x2000 0x10 s) = Inr 0x1040)"
proof -
  have bound: "\<exists>r. ComputeLimit_finish start end' min_size step s = (Inr r, s) \<and>
      unat r \<le> unat start + max 64 (unat min_size)" if step: "step \<le> end' - start" for step
  proof -
    obtain r where r: "ComputeLimit_finish start end' min_size step s = (Inr r, s)"
        "r = start + max (min step 64) min_size"
      using finish_bounds[OF assms(1,2) step, of s] assms(3) by auto
    have "min step 64 \<le> end' - start"
      using step by (rule min.coboundedI1)
    then have le: "max (min step 64) min_size \<le> end' - start"
      using assms(2) by simp
    have "unat r = unat start + unat (max (min step 64) min_size)"
      using fits_word(1)[OF assms(1) le] r(2) by simp
    moreover have "unat (max (min step 64) min_size) \<le> max 64 (unat min_size)"
      by (auto simp: max_def min_def word_le_nat_alt)
    ultimately show ?thesis using r(1) by simp
  qed
  have first: "case fst (ComputeLimit start end' min_size s) of
            Inr r \<Rightarrow> unat r \<le> unat start + max 64 (unat min_size)
          | Inl e \<Rightarrow> SupportsAllocationObserver s \<and> IsAllocationObserverActive s \<and>
              (start' (allocation_info s) \<noteq> top' (allocation_info s) \<or> NextBytes s = 0)"
    using assms bound[of "end' - start"]
      bound[of "min (end' - start) (rounded_step s (NextBytes s))"]
    unfolding ComputeLimit_def by auto
  have second: "\<not> (SupportsAllocationObserver s \<and> IsAllocationObserverActive s) \<longrightarrow>
            fst (ComputeLimit 0x1000 0x2000 0x10 s) = Inr 0x1040"
    using assms(3,4,5) by (simp add: ComputeLimit_def ComputeLimit_finish_def)
  show ?thesis using first second by blast
qed

theorem ComputeLimit_stress_witness:
  "(0x1000 :: Address) \<le> 0x2000 \<and> (0x10 :: size_t) \<le> 0x2000 - 0x1000 \<and>
   stress_marking (example_space\<lparr>stress_marking := True\<rparr>) \<and>
   \<not> IsInGC (example_space\<lparr>stress_marking := True\<rparr>) \<and>
   IsInlineAllocationEnabled (example_space\<lparr>stress_marking := True\<rparr>) \<and>
   \<not> IsAllocationObserverActive (example_space\<lparr>stress_marking := True\<rparr>) \<and>
   fst (ComputeLimit 0x1000 0x2000 0x10 (example_space\<lparr>stress_marking := True\<rparr>)) = Inr 0x1040 \<and>
   unat (0x1040 :: Address) \<le> unat (0x1000 :: Address) + max 64 (unat (0x10 :: size_t))"
  using ComputeLimit_stress[of "0x1000" "0x2000" "0x10" "example_space\<lparr>stress_marking := True\<rparr>"]
  by (simp add: example_space_def)

text \<open>
  C10. \<open>ComputeLimit\<close> is a query: whatever it is called with, the space it returns is
  the space it was given (the tracked allocation area, the allocation counter, the flags
  and everything else of the state), and a second call made right after the first
  returns the same limit.
\<close>

theorem ComputeLimit_pure:
  "snd (ComputeLimit start end' min_size s) = s \<and>
   fst (ComputeLimit start end' min_size (snd (ComputeLimit start end' min_size s))) =
   fst (ComputeLimit start end' min_size s)"
proof -
  have "snd (ComputeLimit start end' min_size s) = s"
    by (simp add: ComputeLimit_def ComputeLimit_finish_def Let_def)
  then show ?thesis by simp
qed

theorem ComputeLimit_pure_witness:
  "snd (ComputeLimit 0x1000 0x2000 0x10 example_space) = example_space \<and>
   fst (ComputeLimit 0x1000 0x2000 0x10 (snd (ComputeLimit 0x1000 0x2000 0x10 example_space))) =
     Inr 0x2000"
  using ComputeLimit_pure[of "0x1000" "0x2000" "0x10" example_space]
  by (simp add: ComputeLimit_def ComputeLimit_finish_def example_space_def)

section \<open>Properties of LocalAllocationBuffer\<close>

lemma not_IsValid_null:
  "\<not> IsValid (l\<lparr>allocation_info' := LinearAllocationArea_ctor kNullAddress kNullAddress\<rparr>)"
  by (simp add: IsValid_def)

text \<open>An unused part below \<open>2 ^ 31\<close> bytes keeps its size when narrowed to \<open>int\<close>.\<close>

lemma narrow_size:
  fixes t l :: Address
  assumes "t \<le> l" and "unat (l - t) < 2 ^ 31"
  shows "sint (ucast (l - t) :: cint) = uint l - uint t"
proof -
  have "uint (l - t) = uint l - uint t"
    using assms(1) by (simp add: uint_minus_simple_alt)
  moreover have "uint (l - t) < 2 ^ 31"
    using assms(2) by (simp add: unat_eq_nat_uint del: nat_uint_eq)
  moreover have "0 \<le> uint (l - t)"
    by simp
  ultimately show ?thesis
    by (simp add: signed_ucast_eq signed_take_bit_int_eq_self)
qed

lemma CloseAndMakeIterable_valid:
  assumes "IsValid (labs w this)"
  shows "CloseAndMakeIterable this w =
     (allocation_info' (labs w this),
      \<lparr>labs = (labs w)(this := (labs w this)
                 \<lparr>allocation_info' := LinearAllocationArea_ctor kNullAddress kNullAddress\<rparr>),
       fillers = fillers w @
         [(heap' (labs w this), top' (allocation_info' (labs w this)),
           ucast (limit' (allocation_info' (labs w this)) -
                  top' (allocation_info' (labs w this))))]\<rparr>)"
  using assms
  by (simp add: CloseAndMakeIterable_def MakeIterable_def assign_def
      CreateFillerObjectAtBackground_def Let_def)

lemma CloseAndMakeIterable_invalid:
  "\<not> IsValid (labs w this) \<Longrightarrow>
   CloseAndMakeIterable this w = (LinearAllocationArea_ctor kNullAddress kNullAddress, w)"
  by (simp add: CloseAndMakeIterable_def)

text \<open>
  C6, as amended. For every buffer: if it is valid, \<open>CloseAndMakeIterable()\<close> writes the
  filler of \<open>MakeIterable\<close>, one filler on the buffer's heap that starts at \<open>top\<close> and,
  when \<open>top \<le> limit\<close> and \<open>limit - top\<close> is below \<open>2 ^ 31\<close> (the size fits the \<open>int\<close> it
  is narrowed to), ends at \<open>limit\<close>; it returns the area the buffer held at entry and
  leaves the buffer invalid, its area null. If the buffer is invalid already, it returns
  a null area and changes nothing. So a second call in a row always returns a null area
  and changes nothing.
\<close>

theorem CloseAndMakeIterable_lifecycle:
  "(IsValid (labs w this) \<longrightarrow>
      (case CloseAndMakeIterable this w of (r, w') \<Rightarrow>
         fillers w' = fillers (MakeIterable this w) \<and>
         (\<exists>f. fillers w' = fillers w @ [f] \<and> fst f = heap' (labs w this) \<and>
              fst (snd f) = top' (allocation_info' (labs w this)) \<and>
              (top' (allocation_info' (labs w this)) \<le> limit' (allocation_info' (labs w this)) \<and>
               unat (limit' (allocation_info' (labs w this)) -
                     top' (allocation_info' (labs w this))) < 2 ^ 31
               \<longrightarrow> filler_end f = uint (limit' (allocation_info' (labs w this))))) \<and>
         r = allocation_info' (labs w this) \<and>
         allocation_info' (labs w' this) = LinearAllocationArea_ctor kNullAddress kNullAddress \<and>
         \<not> IsValid (labs w' this))) \<and>
   (\<not> IsValid (labs w this) \<longrightarrow>
      CloseAndMakeIterable this w = (LinearAllocationArea_ctor kNullAddress kNullAddress, w)) \<and>
   CloseAndMakeIterable this (snd (CloseAndMakeIterable this w)) =
     (LinearAllocationArea_ctor kNullAddress kNullAddress, snd (CloseAndMakeIterable this w))"
proof (cases "IsValid (labs w this)")
  case True
  note v = CloseAndMakeIterable_valid[OF True]
  have second: "\<not> IsValid (labs (snd (CloseAndMakeIterable this w)) this)"
    by (simp add: v not_IsValid_null)
  show ?thesis
    using True CloseAndMakeIterable_invalid[OF second]
    by (auto simp: v MakeIterable_def CreateFillerObjectAtBackground_def filler_end_def
        narrow_size not_IsValid_null)
next
  case False
  then show ?thesis by (simp add: CloseAndMakeIterable_invalid)
qed

theorem CloseAndMakeIterable_lifecycle_witness:
  "IsValid (labs example_store 1) \<and>
   top' (allocation_info' (labs example_store 1)) \<le>
     limit' (allocation_info' (labs example_store 1)) \<and>
   unat (limit' (allocation_info' (labs example_store 1)) -
         top' (allocation_info' (labs example_store 1))) < 2 ^ 31 \<and>
   CloseAndMakeIterable 1 example_store =
     (\<lparr>start' = 0x1000, top' = 0x1040, limit' = 0x2000\<rparr>,
      \<lparr>labs = (labs example_store)
                (1 := \<lparr>heap' = 7,
                       allocation_info' = LinearAllocationArea_ctor kNullAddress kNullAddress\<rparr>),
       fillers = [(7, 0x1040, 0xFC0)]\<rparr>) \<and>
   filler_end (7, 0x1040, 0xFC0) = 0x2000 \<and>
   CloseAndMakeIterable 1 (snd (CloseAndMakeIterable 1 example_store)) =
     (LinearAllocationArea_ctor kNullAddress kNullAddress,
      snd (CloseAndMakeIterable 1 example_store))"
  using CloseAndMakeIterable_lifecycle[of example_store 1]
  by (simp add: CloseAndMakeIterable_def MakeIterable_def CreateFillerObjectAtBackground_def
      assign_def IsValid_def example_store_def LinearAllocationArea_ctor_def
      kNullAddress_def filler_end_def)

text \<open>
  The statement of C6 without the bound on the size fails: the buffer of \<open>huge_store\<close>
  is valid, with \<open>start \<le> top \<le> limit\<close> and \<open>2 ^ 32 + 16\<close> bytes left; the size of its
  filler is narrowed to 16, and the filler ends at \<open>0x1010\<close>, far below \<open>limit\<close>.
\<close>

theorem CloseAndMakeIterable_counterexample:
  "IsValid (labs huge_store 1) \<and>
   start' (allocation_info' (labs huge_store 1)) \<le> top' (allocation_info' (labs huge_store 1)) \<and>
   top' (allocation_info' (labs huge_store 1)) \<le> limit' (allocation_info' (labs huge_store 1)) \<and>
   fillers (snd (CloseAndMakeIterable 1 huge_store)) = [(7, 0x1000, 0x10)] \<and>
   filler_end (7, 0x1000, 0x10) = 0x1010 \<and>
   uint (limit' (allocation_info' (labs huge_store 1))) = 0x100001010"
  by (simp add: CloseAndMakeIterable_valid IsValid_def huge_store_def LinearAllocationArea_ctor_def
      kNullAddress_def filler_end_def)

text \<open>
  C7. For two buffers, the object \<open>other\<close> moved into the distinct object \<open>this\<close> by
  move assignment or by move construction: afterwards \<open>this\<close> holds the heap reference
  and the area \<open>other\<close> held before, the area of \<open>other\<close> is null and \<open>other\<close> is
  invalid, and the log of fillers is what it was: the move writes none.
\<close>

theorem move_transfers:
  assumes "this \<noteq> other"
  shows "heap' (labs (move_assign this other w) this) = heap' (labs w other) \<and>
         allocation_info' (labs (move_assign this other w) this) =
           allocation_info' (labs w other) \<and>
         allocation_info' (labs (move_assign this other w) other) =
           LinearAllocationArea_ctor kNullAddress kNullAddress \<and>
         \<not> IsValid (labs (move_assign this other w) other) \<and>
         fillers (move_assign this other w) = fillers w \<and>
         heap' (labs (move_construct this other w) this) = heap' (labs w other) \<and>
         allocation_info' (labs (move_construct this other w) this) =
           allocation_info' (labs w other) \<and>
         allocation_info' (labs (move_construct this other w) other) =
           LinearAllocationArea_ctor kNullAddress kNullAddress \<and>
         \<not> IsValid (labs (move_construct this other w) other) \<and>
         fillers (move_construct this other w) = fillers w"
  using assms
  by (simp add: move_assign_def move_construct_def assign_def Let_def Reset_def
      LinearAllocationArea_ctor_def IsValid_def)

theorem move_transfers_witness:
  "(2 :: nat) \<noteq> 1 \<and>
   labs (move_assign 2 1 example_store) 2 =
     \<lparr>heap' = 7, allocation_info' = \<lparr>start' = 0x1000, top' = 0x1040, limit' = 0x2000\<rparr>\<rparr> \<and>
   \<not> IsValid (labs (move_assign 2 1 example_store) 1) \<and>
   fillers (move_assign 2 1 example_store) = [] \<and>
   labs (move_construct 2 1 example_store) 2 =
     \<lparr>heap' = 7, allocation_info' = \<lparr>start' = 0x1000, top' = 0x1040, limit' = 0x2000\<rparr>\<rparr> \<and>
   \<not> IsValid (labs (move_construct 2 1 example_store) 1) \<and>
   fillers (move_construct 2 1 example_store) = []"
proof -
  have d: "(2 :: nat) \<noteq> 1"
    by simp
  have e: "labs example_store 1 =
      \<lparr>heap' = 7, allocation_info' = \<lparr>start' = 0x1000, top' = 0x1040, limit' = 0x2000\<rparr>\<rparr>"
    "fillers example_store = []"
    by (simp_all add: example_store_def)
  have a: "labs (move_assign 2 1 example_store) 2 =
      \<lparr>heap' = heap' (labs (move_assign 2 1 example_store) 2),
       allocation_info' = allocation_info' (labs (move_assign 2 1 example_store) 2)\<rparr>"
    "labs (move_construct 2 1 example_store) 2 =
      \<lparr>heap' = heap' (labs (move_construct 2 1 example_store) 2),
       allocation_info' = allocation_info' (labs (move_construct 2 1 example_store) 2)\<rparr>"
    by simp_all
  show ?thesis
    using move_transfers[OF d, of example_store] d e
    by (simp add: a)
qed

text \<open>
  Moving a buffer into itself is the case the hypothesis of distinct objects leaves out:
  the object ends invalid, and no filler is written.
\<close>

lemma move_assign_self:
  "\<not> IsValid (labs (move_assign this this w) this) \<and>
   fillers (move_assign this this w) = fillers w"
  by (simp add: move_assign_def assign_def Let_def Reset_def
      LinearAllocationArea_ctor_def IsValid_def)

section \<open>Properties of SpaceIterator\<close>

text \<open>The three ways one round of the loop of \<open>HasNext\<close> goes.\<close>

lemma HasNext_past_end:
  "\<not> current_space' it \<le> l \<Longrightarrow> HasNext l sp it = (False, it)"
  by (subst HasNext.simps) simp

lemma HasNext_found:
  "current_space' it \<le> l \<Longrightarrow> sp (current_space' it) = Some s \<Longrightarrow> HasNext l sp it = (True, it)"
  by (subst HasNext.simps) simp

lemma HasNext_skip:
  "current_space' it \<le> l \<Longrightarrow> sp (current_space' it) = None \<Longrightarrow>
   HasNext l sp it = HasNext l sp (it\<lparr>current_space' := current_space' it + 1\<rparr>)"
  by (subst HasNext.simps) simp

text \<open>
  What a call of \<open>HasNext\<close> leaves: the cursor has only moved forward, over null slots;
  on true it stands on a non-null slot of the range, on false it is past the range.
\<close>

lemma HasNext_result:
  "HasNext l sp it = (b, it') \<Longrightarrow>
   current_space' it \<le> current_space' it' \<and>
   (\<forall>i. current_space' it \<le> i \<and> i < current_space' it' \<longrightarrow> sp i = None) \<and>
   (if b then current_space' it' \<le> l \<and> sp (current_space' it') \<noteq> None
    else l < current_space' it')"
proof (induction l sp it rule: HasNext.induct)
  case (1 l sp it)
  show ?case
  proof (cases "current_space' it \<le> l")
    case False
    then show ?thesis using 1(2) by (auto simp: HasNext_past_end)
  next
    case True
    show ?thesis
    proof (cases "sp (current_space' it)")
      case (Some s)
      then show ?thesis using 1(2) True by (auto simp: HasNext_found)
    next
      case None
      have "HasNext l sp (it\<lparr>current_space' := current_space' it + 1\<rparr>) = (b, it')"
        using HasNext_skip[where it=it and l=l and sp=sp, OF True None] 1(2) by simp
      from 1(1)[OF True None this]
      have ih: "current_space' it + 1 \<le> current_space' it'"
        "\<forall>i. current_space' it + 1 \<le> i \<and> i < current_space' it' \<longrightarrow> sp i = None"
        "if b then current_space' it' \<le> l \<and> sp (current_space' it') \<noteq> None
         else l < current_space' it'"
        by simp_all
      have "sp i = None" if "current_space' it \<le> i" "i < current_space' it'" for i
      proof (cases "i = current_space' it")
        case True then show ?thesis using None by simp
      next
        case False then show ?thesis using ih(2) that by simp
      qed
      then show ?thesis using ih(1,3) by simp
    qed
  qed
qed

lemma Next_advances:
  "Next l sp it = Inr (s, it') \<Longrightarrow>
   sp (current_space' it) = Some s \<and> current_space' it' = current_space' it + 1"
  by (auto simp: Next_def split: if_splits option.splits)

text \<open>The slots that \<open>HasNext\<close> skips contribute nothing to the enumeration.\<close>

lemma HasNext_remaining:
  "List.map_filter sp [current_space' it..l] =
     (case HasNext l sp it of
        (True, it') \<Rightarrow> List.map_filter sp [current_space' it'..l]
      | (False, it') \<Rightarrow> [])"
proof (induction l sp it rule: HasNext.induct)
  case (1 l sp it)
  show ?case
  proof (cases "current_space' it \<le> l")
    case False
    then show ?thesis by (simp add: HasNext_past_end)
  next
    case True
    show ?thesis
    proof (cases "sp (current_space' it)")
      case (Some s)
      then show ?thesis using True by (simp add: HasNext_found)
    next
      case None
      have "List.map_filter sp [current_space' it..l] =
            List.map_filter sp [current_space' it + 1..l]"
        using True None by (simp add: upto_rec1)
      then show ?thesis using 1[OF True None] HasNext_skip[where it=it and l=l and sp=sp, OF True None] by simp
    qed
  qed
qed

text \<open>From any cursor, the protocol yields the non-null spaces from the cursor on.\<close>

lemma iterate_spaces_from:
  "\<exists>itf. iterate_spaces l sp it = Inr (List.map_filter sp [current_space' it..l], itf) \<and>
         HasNext l sp itf = (False, itf)"
proof (induction l sp it rule: iterate_spaces.induct)
  case (1 l sp it)
  obtain b it1 where h: "HasNext l sp it = (b, it1)" by (cases "HasNext l sp it")
  note res = HasNext_result[OF h]
  show ?case
  proof (cases b)
    case False
    then have "l < current_space' it1" using res by simp
    then have "HasNext l sp it1 = (False, it1)" by (simp add: HasNext_past_end)
    moreover have "iterate_spaces l sp it = Inr ([], it1)"
      using h False by (subst iterate_spaces.simps) simp
    moreover have "List.map_filter sp [current_space' it..l] = []"
      using HasNext_remaining[of sp it l] h False by simp
    ultimately show ?thesis by simp
  next
    case True
    then obtain s where s: "current_space' it1 \<le> l" "sp (current_space' it1) = Some s"
      using res by auto
    define it2 where "it2 = it1\<lparr>current_space' := current_space' it1 + 1\<rparr>"
    have nx: "Next l sp it1 = Inr (s, it2)" using s by (simp add: Next_def it2_def)
    have bT: "b = True" using True by simp
    from 1[OF h[symmetric] bT nx refl]
    obtain itf where itf: "iterate_spaces l sp it2 = Inr (List.map_filter sp [current_space' it2..l], itf)"
       "HasNext l sp itf = (False, itf)" by blast
    have "iterate_spaces l sp it = Inr (s # List.map_filter sp [current_space' it2..l], itf)"
      using h True nx itf(1) by (subst iterate_spaces.simps) simp
    moreover have "List.map_filter sp [current_space' it..l] = s # List.map_filter sp [current_space' it2..l]"
      using HasNext_remaining[of sp it l] h True s
      by (simp add: it2_def upto_rec1)
    ultimately show ?thesis using itf(2) by simp
  qed
qed

text \<open>
  C8. For every heap, a fresh iterator driven by the protocol (\<open>Next()\<close> while
  \<open>HasNext()\<close>) yields the non-null spaces of the slots \<open>FIRST_MUTABLE_SPACE\<close> to
  \<open>LAST_MUTABLE_SPACE\<close>, each once, in ascending order of the slots, without a failed
  assertion, and \<open>HasNext()\<close> is false afterwards. In particular, with the range 0 to 7
  and spaces in exactly the slots 2, 5 and 7, it yields the spaces of the slots 2, 5
  and 7, in this order.
\<close>

theorem SpaceIterator_enumerates:
  "(\<exists>itf. iterate_spaces LAST_MUTABLE_SPACE space (SpaceIterator_ctor FIRST_MUTABLE_SPACE) =
            Inr (List.map_filter space [FIRST_MUTABLE_SPACE..LAST_MUTABLE_SPACE], itf) \<and>
          fst (HasNext LAST_MUTABLE_SPACE space itf) = False) \<and>
   ((\<forall>i. 0 \<le> i \<and> i \<le> 7 \<longrightarrow> (space i \<noteq> None \<longleftrightarrow> i \<in> {2, 5, 7})) \<longrightarrow>
    (\<exists>itf. iterate_spaces 7 space (SpaceIterator_ctor 0) =
            Inr ([the (space 2), the (space 5), the (space 7)], itf) \<and>
          fst (HasNext 7 space itf) = False))"
proof -
  have general: "\<exists>itf. iterate_spaces l space (SpaceIterator_ctor f) =
            Inr (List.map_filter space [f..l], itf) \<and> fst (HasNext l space itf) = False" for l f
    using iterate_spaces_from[of l space "SpaceIterator_ctor f"]
    by (auto simp: SpaceIterator_ctor_def)
  have example: "List.map_filter space [0..7] = [the (space 2), the (space 5), the (space 7)]"
    if h: "\<forall>i. 0 \<le> i \<and> i \<le> 7 \<longrightarrow> (space i \<noteq> None \<longleftrightarrow> i \<in> {2, 5, 7})"
  proof -
    have at: "space i \<noteq> None \<longleftrightarrow> i \<in> {2, 5, 7}" if "0 \<le> i" "i \<le> 7" for i
      using h that by blast
    have n: "space 0 = None" "space 1 = None" "space 3 = None" "space 4 = None" "space 6 = None"
      using at[of 0] at[of 1] at[of 3] at[of 4] at[of 6] by simp_all
    have "space 2 \<noteq> None" "space 5 \<noteq> None" "space 7 \<noteq> None"
      using at[of 2] at[of 5] at[of 7] by simp_all
    then obtain a b c where s: "space 2 = Some a" "space 5 = Some b" "space 7 = Some c" by auto
    have "[0..7::int] = [0, 1, 2, 3, 4, 5, 6, 7]" by (simp add: upto_rec1)
    then show ?thesis using n s by simp
  qed
  show ?thesis using general[of LAST_MUTABLE_SPACE FIRST_MUTABLE_SPACE] general[of 7 0] example
    by auto
qed

theorem SpaceIterator_enumerates_witness:
  "example_heap 0 = None \<and> example_heap 1 = None \<and> example_heap 2 = Some ''old_space'' \<and>
   example_heap 3 = None \<and> example_heap 4 = None \<and> example_heap 5 = Some ''lo_space'' \<and>
   example_heap 6 = None \<and> example_heap 7 = Some ''code_lo_space'' \<and>
   (\<exists>itf. iterate_spaces 7 example_heap (SpaceIterator_ctor 0) =
            Inr ([''old_space'', ''lo_space'', ''code_lo_space''], itf) \<and>
          fst (HasNext 7 example_heap itf) = False)"
proof -
  have h: "\<forall>i. 0 \<le> i \<and> i \<le> 7 \<longrightarrow> (example_heap i \<noteq> None \<longleftrightarrow> i \<in> {2, 5, 7})"
    by (simp add: example_heap_def)
  from SpaceIterator_enumerates[of 7 example_heap 0] h
  have "\<exists>itf. iterate_spaces 7 example_heap (SpaceIterator_ctor 0) =
            Inr ([the (example_heap 2), the (example_heap 5), the (example_heap 7)], itf) \<and>
          fst (HasNext 7 example_heap itf) = False"
    by blast
  then show ?thesis by (simp add: example_heap_def)
qed

text \<open>
  C9. For every iterator whose cursor is at or after \<open>FIRST_MUTABLE_SPACE\<close>, as the
  constructor leaves it and as every call keeps it: \<open>HasNext()\<close> returns true iff a slot
  at or after the cursor, within \<open>FIRST_MUTABLE_SPACE\<close> to \<open>LAST_MUTABLE_SPACE\<close>, holds a
  non-null space; a second call in a row returns the same result and leaves the same
  iterator as the first; and all a call changes is the cursor, which it advances past
  null slots only.
\<close>

theorem HasNext_iff:
  assumes "FIRST_MUTABLE_SPACE \<le> current_space' it"
  shows "(fst (HasNext LAST_MUTABLE_SPACE space it) \<longleftrightarrow>
            (\<exists>i. current_space' it \<le> i \<and> FIRST_MUTABLE_SPACE \<le> i \<and> i \<le> LAST_MUTABLE_SPACE \<and>
                 space i \<noteq> None)) \<and>
         HasNext LAST_MUTABLE_SPACE space (snd (HasNext LAST_MUTABLE_SPACE space it)) =
           HasNext LAST_MUTABLE_SPACE space it \<and>
         current_space' it \<le> current_space' (snd (HasNext LAST_MUTABLE_SPACE space it)) \<and>
         (\<forall>i. current_space' it \<le> i \<and>
              i < current_space' (snd (HasNext LAST_MUTABLE_SPACE space it)) \<longrightarrow> space i = None)"
proof -
  obtain b it' where h: "HasNext LAST_MUTABLE_SPACE space it = (b, it')"
    by (cases "HasNext LAST_MUTABLE_SPACE space it")
  note res = HasNext_result[OF h]
  have iff: "b \<longleftrightarrow> (\<exists>i. current_space' it \<le> i \<and> FIRST_MUTABLE_SPACE \<le> i \<and>
                 i \<le> LAST_MUTABLE_SPACE \<and> space i \<noteq> None)"
  proof
    assume b
    then have "current_space' it' \<le> LAST_MUTABLE_SPACE \<and> space (current_space' it') \<noteq> None"
      using res by simp
    then show "\<exists>i. current_space' it \<le> i \<and> FIRST_MUTABLE_SPACE \<le> i \<and>
                 i \<le> LAST_MUTABLE_SPACE \<and> space i \<noteq> None"
      using res assms by (intro exI[of _ "current_space' it'"]) simp
  next
    assume "\<exists>i. current_space' it \<le> i \<and> FIRST_MUTABLE_SPACE \<le> i \<and>
                 i \<le> LAST_MUTABLE_SPACE \<and> space i \<noteq> None"
    then obtain i where i: "current_space' it \<le> i" "i \<le> LAST_MUTABLE_SPACE" "space i \<noteq> None"
      by blast
    show b
    proof (rule ccontr)
      assume "\<not> b"
      then have "LAST_MUTABLE_SPACE < current_space' it'" using res by simp
      then have "space i = None" using res i by simp
      then show False using i(3) by simp
    qed
  qed
  have again: "HasNext LAST_MUTABLE_SPACE space it' = (b, it')"
  proof (cases b)
    case True
    then obtain s where "current_space' it' \<le> LAST_MUTABLE_SPACE" "space (current_space' it') = Some s"
      using res by auto
    then show ?thesis using True by (simp add: HasNext_found)
  next
    case False
    then have "\<not> current_space' it' \<le> LAST_MUTABLE_SPACE" using res by simp
    then show ?thesis using False by (simp add: HasNext_past_end)
  qed
  show ?thesis using iff again res by (simp add: h)
qed

theorem HasNext_iff_witness:
  "(0::int) \<le> current_space' (SpaceIterator_ctor 0) \<and>
   HasNext 7 example_heap (SpaceIterator_ctor 0) = (True, \<lparr>current_space' = 2\<rparr>) \<and>
   HasNext 7 example_heap \<lparr>current_space' = 2\<rparr> = (True, \<lparr>current_space' = 2\<rparr>) \<and>
   (\<exists>i. (0::int) \<le> i \<and> i \<le> 7 \<and> example_heap i \<noteq> None)"
proof -
  have c: "(0::int) \<le> current_space' (SpaceIterator_ctor 0)"
    by (simp add: SpaceIterator_ctor_def)
  have e: "HasNext 7 example_heap (SpaceIterator_ctor 0) = (True, \<lparr>current_space' = 2\<rparr>)"
    by (simp add: SpaceIterator_ctor_def example_heap_def HasNext.simps)
  from HasNext_iff[OF c, of 7 example_heap] e
  show ?thesis using c by auto
qed

end
